theory Spec2Isabelle
  imports Complex_Main "HOL-Library.Multiset" "HOL-Library.AList"
begin

section \<open>Exceptions\<close>

text \<open>
  Every \<^verbatim>\<open>raise\<close> of the two source files, and every exception of the Python runtime
  and of the tensor library that the modelled paths can meet, is a value of \<open>exn\<close>.
  A function that may raise returns a sum with the exception on the left.
\<close>

datatype exn =
    NameError string
  | AttributeError string
  | AssertionError
  | RuntimeError string
  | ValueError string
  | StopIteration
  | CallbackError nat

section \<open>The sort dataset (\<^verbatim>\<open>train_fsdp.py\<close>, class \<^verbatim>\<open>SortDataset\<close>)\<close>

record SortDataset =
  split :: string
  length_ds :: int
  num_digits :: int

text \<open>\<^verbatim>\<open>__init__\<close>: the assertion on the split name is the only check.\<close>

definition SortDataset_init :: "string \<Rightarrow> int \<Rightarrow> int \<Rightarrow> exn + SortDataset" where
  "SortDataset_init sp len nd =
     (if sp = ''train'' \<or> sp = ''test''
      then Inr \<lparr>split = sp, length_ds = len, num_digits = nd\<rparr>
      else Inl AssertionError)"

definition get_vocab_size :: "SortDataset \<Rightarrow> int" where
  "get_vocab_size self = num_digits self"

definition get_block_size :: "SortDataset \<Rightarrow> int" where
  "get_block_size self = length_ds self * 2 - 1"

text \<open>
  The random generator is a stream consumed by attempt number: the \<open>i\<close>-th pass through
  the body of the rejection loop makes the \<open>i\<close>-th call of \<^verbatim>\<open>torch.randint\<close> and, when it
  gets there, the \<open>i\<close>-th call of \<^verbatim>\<open>torch.rand\<close>. \<open>raw_int g i j\<close> is the raw number behind
  the \<open>j\<close>-th entry of the \<open>i\<close>-th tensor and \<open>unif g i\<close> the \<open>i\<close>-th uniform draw. Nothing is
  assumed of the stream.
\<close>

record rng =
  raw_int :: "nat \<Rightarrow> nat \<Rightarrow> nat"
  unif :: "nat \<Rightarrow> real"

text \<open>
  \<^verbatim>\<open>hash\<close> on bytes is the interpreter's keyed hash and \<^verbatim>\<open>pickle.dumps\<close> the serializer of the
  standard library; neither is code of this repository, so both are parameters. The key
  of the hash is drawn when an interpreter process starts (unless \<^verbatim>\<open>PYTHONHASHSEED\<close> fixes
  it), so a runtime stands for one process: two processes are two runtimes, whose hashes
  need not agree. The type \<open>'b\<close> stands for byte strings.
\<close>

record 'b runtime =
  hash :: "'b \<Rightarrow> int"
  pickle_dumps :: "int list \<Rightarrow> 'b"

text \<open>
  \<^verbatim>\<open>torch.randint(high, size=(sz,))\<close>: entries in \<open>[0, high)\<close>; a negative size and an empty
  range raise.
\<close>

definition randint :: "rng \<Rightarrow> nat \<Rightarrow> int \<Rightarrow> int \<Rightarrow> exn + int list" where
  "randint g i high sz =
     (if sz < 0 then Inl (RuntimeError ''negative dimension'')
      else if high \<le> 0 then Inl (RuntimeError ''from >= to'')
      else Inr (map (\<lambda>j. int (raw_int g i j) mod high) [0..<nat sz]))"

text \<open>Lines 56-57: the label of a candidate. Python's \<^verbatim>\<open>%\<close> with a positive divisor is \<open>mod\<close>.\<close>

definition split_label :: "'b runtime \<Rightarrow> int list \<Rightarrow> string" where
  "split_label P inp =
     (let h = hash P (pickle_dumps P inp)
      in if h mod 4 = 0 then ''test'' else ''train'')"

text \<open>
  Lines 45-59, the \<^verbatim>\<open>while True\<close> loop. The first argument after the generator is fuel:
  \<open>None\<close> is the loop still running when the fuel is spent. \<open>i\<close> counts the attempts.
\<close>

fun sample_loop ::
  "'b runtime \<Rightarrow> SortDataset \<Rightarrow> rng \<Rightarrow> nat \<Rightarrow> nat \<Rightarrow> (exn + int list) option" where
  "sample_loop P self g 0 i = None"
| "sample_loop P self g (Suc fuel) i =
     (case randint g i (num_digits self) (length_ds self) of
        Inl e \<Rightarrow> Some (Inl e)
      | Inr inp \<Rightarrow>
          if unif g i < 1 / 2 \<and> int (length (remdups inp)) > length_ds self div 2
          then sample_loop P self g fuel (Suc i)
          else if split_label P inp = split self
               then Some (Inr inp)
               else sample_loop P self g fuel (Suc i))"

text \<open>
  \<^verbatim>\<open>y[:stop] = v\<close> on a one-dimensional tensor: a negative \<open>stop\<close> counts from the end, and
  the slice is clipped to the tensor.
\<close>

definition fill_prefix :: "int \<Rightarrow> int \<Rightarrow> int list \<Rightarrow> int list" where
  "fill_prefix stop v ys =
     (let n = int (length ys);
          m = (if stop < 0 then max 0 (n + stop) else min stop n)
      in replicate (nat m) v @ drop (nat m) ys)"

text \<open>Lines 61-72: sort, concatenate, shift by one, mask.\<close>

definition make_example :: "SortDataset \<Rightarrow> int list \<Rightarrow> int list \<times> int list" where
  "make_example self inp =
     (let sol = sort inp;
          cat = inp @ sol;
          x = butlast cat;
          y = tl cat;
          y = fill_prefix (length_ds self - 1) (- 1) y
      in (x, y))"

text \<open>\<^verbatim>\<open>__getitem__\<close>; the index \<open>idx\<close> is a parameter that the body never reads.\<close>

definition getitem ::
  "'b runtime \<Rightarrow> SortDataset \<Rightarrow> rng \<Rightarrow> nat \<Rightarrow> int \<Rightarrow> (exn + int list \<times> int list) option" where
  "getitem P self g fuel idx =
     (case sample_loop P self g fuel 0 of
        None \<Rightarrow> None
      | Some (Inl e) \<Rightarrow> Some (Inl e)
      | Some (Inr inp) \<Rightarrow> Some (Inr (make_example self inp)))"

text \<open>
  Attempt \<open>i\<close> is rejected when its candidate is drawn and then dropped by one of the two
  tests of the loop body (the \<^verbatim>\<open>continue\<close> of line 54, or a label other than the split asked
  for).
\<close>

definition rejected :: "'b runtime \<Rightarrow> SortDataset \<Rightarrow> rng \<Rightarrow> nat \<Rightarrow> bool" where
  "rejected P self g i =
     (case randint g i (num_digits self) (length_ds self) of
        Inl e \<Rightarrow> False
      | Inr inp \<Rightarrow>
          (unif g i < 1 / 2 \<and> int (length (remdups inp)) > length_ds self div 2)
          \<or> split_label P inp \<noteq> split self)"

subsection \<open>Sample inputs\<close>

text \<open>
  A runtime whose serializer is the identity and whose hash is the sum of the entries, one
  whose hash is constantly 1, three generators (the third draws the sequence
  \<open>0 0 2 1 0 1\<close> of the docstring at every attempt), the two datasets of the script, one
  with more digits and one of sequence length 0.
\<close>

definition rt_sum :: "int list runtime" where
  "rt_sum = \<lparr>hash = sum_list, pickle_dumps = (\<lambda>xs. xs)\<rparr>"

definition rt_one :: "int list runtime" where
  "rt_one = \<lparr>hash = (\<lambda>xs. 1), pickle_dumps = (\<lambda>xs. xs)\<rparr>"

definition gen_a :: rng where
  "gen_a = \<lparr>raw_int = (\<lambda>i j. i + j * j), unif = (\<lambda>i. if even i then 1 / 4 else 3 / 4)\<rparr>"

definition gen_b :: rng where
  "gen_b = \<lparr>raw_int = (\<lambda>i j. if j mod 3 = 0 then 1 else 2), unif = (\<lambda>i. 3 / 4)\<rparr>"

definition train_dataset :: SortDataset where
  "train_dataset = \<lparr>split = ''train'', length_ds = 6, num_digits = 3\<rparr>"

definition test_dataset :: SortDataset where
  "test_dataset = \<lparr>split = ''test'', length_ds = 6, num_digits = 3\<rparr>"

definition wide_dataset :: SortDataset where
  "wide_dataset = \<lparr>split = ''train'', length_ds = 6, num_digits = 5\<rparr>"

definition gen_c :: rng where
  "gen_c = \<lparr>raw_int = (\<lambda>i j. if j = 2 then 2 else if j = 3 \<or> j = 5 then 1 else 0),
             unif = (\<lambda>i. 3 / 4)\<rparr>"

definition empty_dataset :: SortDataset where
  "empty_dataset = \<lparr>split = ''train'', length_ds = 0, num_digits = 3\<rparr>"

section \<open>The trainer (\<^verbatim>\<open>minGPT/mingpt/trainer.py\<close>, class \<^verbatim>\<open>Trainer\<close>)\<close>

subsection \<open>Configuration and state\<close>

record config =
  device :: string
  num_workers :: int
  max_iters :: "int option"
  batch_size :: int
  learning_rate :: real
  betas :: "real \<times> real"
  weight_decay :: real
  grad_norm_clip :: real
  cross_batch_num :: int
  cfg_use_fsdp :: bool

definition get_default_config :: config where
  "get_default_config =
     \<lparr>device = ''auto'', num_workers = 4, max_iters = None, batch_size = 64,
      learning_rate = 3 / 10000, betas = (9 / 10, 95 / 100), weight_decay = 1 / 10,
      grad_norm_clip = 1, cross_batch_num = 1, cfg_use_fsdp = False\<rparr>"

text \<open>
  The data fields of a trainer on which \<^verbatim>\<open>run\<close> works. \<open>loss\<close> names the batch whose loss
  tensor \<^verbatim>\<open>self.loss\<close> holds. The callback registry is kept apart (below).
\<close>

record trainer =
  config :: config
  use_fsdp :: bool
  iter_num :: int
  iter_time :: real
  iter_dt :: real
  loss :: "nat option"

text \<open>
  What \<^verbatim>\<open>run\<close> does to the objects of the framework is recorded in a \<open>world\<close>: the
  gradient buffers of the model, as the list of the batches whose gradients they hold
  summed (\<open>None\<close> after \<^verbatim>\<open>zero_grad(set_to_none=True)\<close>); the number of batches one pass
  over the data loader yields and the number already drawn from the iterator; the number
  of readings of the clock; and the log of the calls, in order.
\<close>

datatype event =
    Fetch nat
  | Forward nat
  | ZeroGrad
  | Backward nat
  | ClipGrad real
  | OptStep "nat list"
  | Trigger string
  | Call nat
  | DestroyGroup

record world =
  grad :: "nat list option"
  loader_len :: nat
  data_pos :: nat
  clock :: nat
  log :: "event list"

text \<open>
  Callbacks are named by numbers. What a callback does is a parameter: given the trainer
  it returns the trainer as it leaves it and the exception it raises, if any. Callbacks
  act on the data fields of the trainer; they do not register callbacks while they run and
  do not call the framework. \<open>now E n\<close> is the \<open>n\<close>-th reading of \<^verbatim>\<open>time.time()\<close>.
\<close>

record env =
  cb :: "nat \<Rightarrow> trainer \<Rightarrow> exn option \<times> trainer"
  now :: "nat \<Rightarrow> real"
  dataset_len :: nat
  world_size :: nat

datatype outcome = Returns trainer world | Raises exn trainer world

fun outcome_log :: "outcome \<Rightarrow> event list" where
  "outcome_log (Returns t w) = log w"
| "outcome_log (Raises e t w) = log w"

subsection \<open>The callback registry\<close>

text \<open>\<^verbatim>\<open>self.callbacks = defaultdict(list)\<close>: a missing key reads as the empty list.\<close>

type_synonym registry = "string \<rightharpoonup> nat list"

definition callbacks_get :: "registry \<Rightarrow> string \<Rightarrow> nat list" where
  "callbacks_get callbacks onevent =
     (case callbacks onevent of None \<Rightarrow> [] | Some cs \<Rightarrow> cs)"

definition add_callback :: "registry \<Rightarrow> string \<Rightarrow> nat \<Rightarrow> registry" where
  "add_callback callbacks onevent callback =
     callbacks(onevent \<mapsto> callbacks_get callbacks onevent @ [callback])"

definition set_callback :: "registry \<Rightarrow> string \<Rightarrow> nat \<Rightarrow> registry" where
  "set_callback callbacks onevent callback = callbacks(onevent \<mapsto> [callback])"

text \<open>The \<^verbatim>\<open>for\<close> loop of \<^verbatim>\<open>trigger_callbacks\<close>: no \<^verbatim>\<open>try\<close> around the call.\<close>

fun call_each :: "env \<Rightarrow> nat list \<Rightarrow> trainer \<Rightarrow> world \<Rightarrow> outcome" where
  "call_each E [] t w = Returns t w"
| "call_each E (c # cs) t w =
     (let w1 = w\<lparr>log := log w @ [Call c]\<rparr>
      in case cb E c t of
           (Some e, t1) \<Rightarrow> Raises e t1 w1
         | (None, t1) \<Rightarrow> call_each E cs t1 w1)"

definition trigger_callbacks ::
  "env \<Rightarrow> registry \<Rightarrow> string \<Rightarrow> trainer \<Rightarrow> world \<Rightarrow> outcome" where
  "trigger_callbacks E callbacks onevent t w =
     call_each E (callbacks_get callbacks onevent) t
       (w\<lparr>log := log w @ [Trigger onevent]\<rparr>)"

subsection \<open>Names in scope\<close>

text \<open>
  A name that a function reads without assigning it is looked up among the function's
  locals, then among the names the module binds at top level (its imports and its two
  classes), then among Python's builtins, of which the module uses the ones listed.
\<close>

definition module_globals :: "string list" where
  "module_globals =
     [''time'', ''defaultdict'', ''torch'', ''DataLoader'', ''dist'', ''mp'', ''FSDP'',
      ''CPUOffload'', ''os'', ''DistributedSampler'', ''profile'', ''record_function'',
      ''ProfilerActivity'', ''schedule'', ''CN'', ''TorchProfiler'', ''Trainer'']"

definition builtins_used :: "string list" where
  "builtins_used = [''int'', ''print'', ''range'', ''iter'', ''next'', ''StopIteration'']"

definition resolve :: "string list \<Rightarrow> string \<Rightarrow> exn + unit" where
  "resolve locals name =
     (if name \<in> set (locals @ module_globals @ builtins_used) then Inr ()
      else Inl (NameError name))"

definition run_locals :: "string list" where
  "run_locals =
     [''self'', ''model'', ''config'', ''train_sampler'', ''data_iter'', ''steps'', ''i'',
      ''batch'', ''t'', ''x'', ''y'', ''logits'', ''tnow'']"

definition init_locals :: "string list" where
  "init_locals = [''self'', ''config'', ''model'', ''train_dataset'']"

subsection \<open>\<^verbatim>\<open>run\<close>\<close>

text \<open>\<^verbatim>\<open>next(data_iter)\<close>.\<close>

definition next_batch :: "world \<Rightarrow> exn + nat \<times> world" where
  "next_batch w =
     (if data_pos w < loader_len w
      then Inr (data_pos w,
                w\<lparr>data_pos := Suc (data_pos w), log := log w @ [Fetch (data_pos w)]\<rparr>)
      else Inl StopIteration)"

text \<open>
  Lines 151-155. The handler of \<^verbatim>\<open>StopIteration\<close> evaluates \<^verbatim>\<open>iter(train_loader)\<close>; the
  loader was stored as \<^verbatim>\<open>self.train_loader\<close>, and the bare name is looked up as above.
\<close>

definition fetch_batch :: "world \<Rightarrow> exn + nat \<times> world" where
  "fetch_batch w =
     (case next_batch w of
        Inr r \<Rightarrow> Inr r
      | Inl StopIteration \<Rightarrow>
          (case resolve run_locals ''train_loader'' of
             Inl e \<Rightarrow> Inl e
           | Inr _ \<Rightarrow> next_batch (w\<lparr>data_pos := 0\<rparr>))
      | Inl e \<Rightarrow> Inl e)"

text \<open>The four calls into the framework of lines 160-166.\<close>

definition zero_grad :: "world \<Rightarrow> world" where
  "zero_grad w = w\<lparr>grad := None, log := log w @ [ZeroGrad]\<rparr>"

definition backward :: "nat \<Rightarrow> world \<Rightarrow> world" where
  "backward b w =
     w\<lparr>grad := Some ((case grad w of None \<Rightarrow> [] | Some bs \<Rightarrow> bs) @ [b]),
       log := log w @ [Backward b]\<rparr>"

definition clip_grad_norm :: "real \<Rightarrow> world \<Rightarrow> world" where
  "clip_grad_norm max_norm w = w\<lparr>log := log w @ [ClipGrad max_norm]\<rparr>"

definition optimizer_step :: "world \<Rightarrow> world" where
  "optimizer_step w =
     w\<lparr>log := log w @ [OptStep (case grad w of None \<Rightarrow> [] | Some bs \<Rightarrow> bs)]\<rparr>"

text \<open>Lines 151-165: the body of the \<^verbatim>\<open>for\<close> loop, one micro-batch.\<close>

definition micro_batch :: "trainer \<Rightarrow> world \<Rightarrow> outcome" where
  "micro_batch t w =
     (case fetch_batch w of
        Inl e \<Rightarrow> Raises e t w
      | Inr (b, w) \<Rightarrow>
          let t = t\<lparr>loss := Some b\<rparr>;
              w = w\<lparr>log := log w @ [Forward b]\<rparr>;
              w = zero_grad w;
              w = backward b w;
              w = clip_grad_norm (grad_norm_clip (config t)) w
          in Returns t w)"

text \<open>\<^verbatim>\<open>for i in range(steps)\<close>, with \<open>n\<close> passes left.\<close>

fun inner_loop :: "nat \<Rightarrow> trainer \<Rightarrow> world \<Rightarrow> outcome" where
  "inner_loop 0 t w = Returns t w"
| "inner_loop (Suc n) t w =
     (case micro_batch t w of
        Raises e t1 w1 \<Rightarrow> Raises e t1 w1
      | Returns t1 w1 \<Rightarrow> inner_loop n t1 w1)"

text \<open>Lines 150-172: one pass through the body of \<^verbatim>\<open>while True\<close>.\<close>

definition cycle :: "env \<Rightarrow> registry \<Rightarrow> int \<Rightarrow> trainer \<Rightarrow> world \<Rightarrow> outcome" where
  "cycle E callbacks steps t w =
     (case inner_loop (nat steps) t w of
        Raises e t1 w1 \<Rightarrow> Raises e t1 w1
      | Returns t1 w1 \<Rightarrow>
          (case trigger_callbacks E callbacks ''on_batch_end'' t1 (optimizer_step w1) of
             Raises e t2 w2 \<Rightarrow> Raises e t2 w2
           | Returns t2 w2 \<Rightarrow>
               let t3 = t2\<lparr>iter_num := iter_num t2 + 1\<rparr>;
                   tnow = now E (clock w2);
                   t4 = t3\<lparr>iter_dt := tnow - iter_time t3, iter_time := tnow\<rparr>
               in Returns t4 (w2\<lparr>clock := Suc (clock w2)\<rparr>)))"

text \<open>
  Lines 147-176, with fuel: \<open>None\<close> is the loop still running after \<open>fuel\<close> passes.
\<close>

fun run_loop ::
  "nat \<Rightarrow> env \<Rightarrow> registry \<Rightarrow> int \<Rightarrow> trainer \<Rightarrow> world \<Rightarrow> outcome option" where
  "run_loop 0 E callbacks steps t w = None"
| "run_loop (Suc fuel) E callbacks steps t w =
     (case cycle E callbacks steps t w of
        Raises e t1 w1 \<Rightarrow> Some (Raises e t1 w1)
      | Returns t1 w1 \<Rightarrow>
          if (case max_iters (config t1) of None \<Rightarrow> False | Some m \<Rightarrow> iter_num t1 \<ge> m)
          then Some (Returns t1 w1)
          else run_loop fuel E callbacks steps t1 w1)"

text \<open>
  The number of batches of one pass over the loader that lines 121-140 build: the random
  sampler draws \<^verbatim>\<open>int(1e10)\<close> indices, the distributed sampler its share of the dataset,
  and the loader cuts them into batches, keeping the last, short one.
\<close>

definition ceil_div :: "nat \<Rightarrow> nat \<Rightarrow> nat" where
  "ceil_div a b = (a + b - 1) div b"

definition num_batches :: "env \<Rightarrow> trainer \<Rightarrow> nat" where
  "num_batches E t =
     (let num_samples =
            (if use_fsdp t then ceil_div (dataset_len E) (world_size E) else 10 ^ 10)
      in ceil_div num_samples (nat (batch_size (config t))))"

text \<open>
  \<^verbatim>\<open>run\<close>. The data loader refuses a batch size below one and a negative worker count.
  \<^verbatim>\<open>configure_optimizers\<close> and \<^verbatim>\<open>model.train()\<close> leave the modelled state as it is.
\<close>

definition run :: "nat \<Rightarrow> env \<Rightarrow> registry \<Rightarrow> trainer \<Rightarrow> world \<Rightarrow> outcome option" where
  "run fuel E callbacks t w =
     (if batch_size (config t) \<le> 0 then Some (Raises (ValueError ''batch_size'') t w)
      else if num_workers (config t) < 0 then Some (Raises (ValueError ''num_workers'') t w)
      else
        let w = w\<lparr>loader_len := num_batches E t, data_pos := 0\<rparr>;
            t = t\<lparr>iter_num := 0, iter_time := now E (clock w)\<rparr>;
            w = w\<lparr>clock := Suc (clock w)\<rparr>;
            steps = cross_batch_num (config t)
        in case run_loop fuel E callbacks steps t w of
             None \<Rightarrow> None
           | Some (Raises e t1 w1) \<Rightarrow> Some (Raises e t1 w1)
           | Some (Returns t1 w1) \<Rightarrow>
               Some (Returns t1
                 (if use_fsdp t1 then w1\<lparr>log := log w1 @ [DestroyGroup]\<rparr> else w1)))"

subsection \<open>Counting the calls of a log\<close>

fun is_forward :: "event \<Rightarrow> bool" where
  "is_forward (Forward b) = True"
| "is_forward ev = False"

fun is_backward :: "event \<Rightarrow> bool" where
  "is_backward (Backward b) = True"
| "is_backward ev = False"

fun is_zero_grad :: "event \<Rightarrow> bool" where
  "is_zero_grad ZeroGrad = True"
| "is_zero_grad ev = False"

fun is_clip :: "event \<Rightarrow> bool" where
  "is_clip (ClipGrad c) = True"
| "is_clip ev = False"

fun is_opt_step :: "event \<Rightarrow> bool" where
  "is_opt_step (OptStep g) = True"
| "is_opt_step ev = False"

fun is_trigger :: "event \<Rightarrow> bool" where
  "is_trigger (Trigger ev) = True"
| "is_trigger ev = False"

fun is_call :: "event \<Rightarrow> bool" where
  "is_call (Call c) = True"
| "is_call ev = False"

definition count_ev :: "(event \<Rightarrow> bool) \<Rightarrow> event list \<Rightarrow> nat" where
  "count_ev p evs = length (filter p evs)"

text \<open>The calls of one micro-batch on batch \<open>b\<close> with clipping norm \<open>c\<close>, as the source orders them.\<close>

definition micro_events :: "real \<Rightarrow> nat \<Rightarrow> event list" where
  "micro_events c b = [Fetch b, Forward b, ZeroGrad, Backward b, ClipGrad c]"

subsection \<open>\<^verbatim>\<open>__init__\<close>\<close>

text \<open>
  The object under construction is the list of its attributes with their values, in the
  order of their first assignment. The model and the dataset are values of types the
  trainer does not look into.
\<close>

datatype ('m, 'd) attr =
    VNone
  | VBool bool
  | VInt int
  | VFloat real
  | VStr string
  | VConfig config
  | VModel 'm
  | VDataset 'd
  | VCallbacks registry
  | VDevice string int

type_synonym ('m, 'd) object = "(string \<times> ('m, 'd) attr) list"

definition setattr :: "('m, 'd) object \<Rightarrow> string \<Rightarrow> ('m, 'd) attr \<Rightarrow> ('m, 'd) object" where
  "setattr self name v = AList.update name v self"

definition get_bool :: "('m, 'd) object \<Rightarrow> string \<Rightarrow> exn + bool" where
  "get_bool self name =
     (case map_of self name of Some (VBool b) \<Rightarrow> Inr b | _ \<Rightarrow> Inl (AttributeError name))"

definition get_model :: "('m, 'd) object \<Rightarrow> string \<Rightarrow> exn + 'm" where
  "get_model self name =
     (case map_of self name of Some (VModel m) \<Rightarrow> Inr m | _ \<Rightarrow> Inl (AttributeError name))"

text \<open>
  What \<^verbatim>\<open>__init__\<close> asks of the process it runs in: the environment variables, Python's
  \<^verbatim>\<open>int\<close> on a string, \<^verbatim>\<open>torch.cuda.is_available()\<close>, \<^verbatim>\<open>model.to\<close> (on a device name or on a
  rank) and the \<^verbatim>\<open>FSDP\<close> wrapper. The calls \<^verbatim>\<open>dist.init_process_group\<close>,
  \<^verbatim>\<open>torch.cuda.set_device\<close> and \<^verbatim>\<open>print\<close> are taken to return.
\<close>

record 'm host =
  environ :: "string \<rightharpoonup> string"
  int_of_str :: "string \<Rightarrow> int option"
  cuda_is_available :: bool
  model_to :: "'m \<Rightarrow> string + int \<Rightarrow> 'm"
  fsdp :: "'m \<Rightarrow> 'm"

text \<open>
  Module \<^verbatim>\<open>os\<close> keeps the environment variables in its attribute \<^verbatim>\<open>environ\<close>; it has no
  attribute \<^verbatim>\<open>env\<close>. The function below answers for these two names.
\<close>

definition os_getattr :: "'m host \<Rightarrow> string \<Rightarrow> exn + (string \<rightharpoonup> string)" where
  "os_getattr H name =
     (if name = ''environ'' then Inr (environ H) else Inl (AttributeError name))"

text \<open>\<^verbatim>\<open>int(os.env.get("LOCAL_RANK",0))\<close>.\<close>

definition read_local_rank :: "'m host \<Rightarrow> exn + int" where
  "read_local_rank H =
     (case os_getattr H ''env'' of
        Inl e \<Rightarrow> Inl e
      | Inr env \<Rightarrow>
          (case env ''LOCAL_RANK'' of
             None \<Rightarrow> Inr 0
           | Some s \<Rightarrow>
               (case int_of_str H s of
                  None \<Rightarrow> Inl (ValueError s)
                | Some r \<Rightarrow> Inr r)))"

text \<open>
  The body of \<^verbatim>\<open>__init__\<close> from the comment \<^verbatim>\<open>determine the device we'll train on\<close> to its
  end, on the object as the assignments before it leave it.
\<close>

definition init_device ::
  "'m host \<Rightarrow> config \<Rightarrow> ('m, 'd) object \<Rightarrow> exn \<times> ('m, 'd) object + ('m, 'd) object" where
  "init_device H cfg self =
     (case get_bool self ''use_fsdp'' of
        Inl e \<Rightarrow> Inl (e, self)
      | Inr distributed \<Rightarrow>
          (case (if distributed
                 then (case read_local_rank H of
                         Inl e \<Rightarrow> Inl (e, self)
                       | Inr r \<Rightarrow>
                           (let self1 = setattr self ''local_rank'' (VInt r);
                                self2 = setattr self1 ''device'' (VDevice ''cuda'' r)
                            in case get_model self2 ''model'' of
                                 Inl e \<Rightarrow> Inl (e, self2)
                               | Inr m \<Rightarrow>
                                   (let self3 = setattr self2 ''model'' (VModel (model_to H m (Inr r)))
                                    in case get_model self3 ''model'' of
                                         Inl e \<Rightarrow> Inl (e, self3)
                                       | Inr m1 \<Rightarrow>
                                           Inr (setattr self3 ''model'' (VModel (fsdp H m1))))))
                 else (let d = (if device cfg = ''auto''
                                then (if cuda_is_available H then ''cuda'' else ''cpu'')
                                else device cfg);
                           self1 = setattr self ''device'' (VStr d)
                       in case get_model self1 ''model'' of
                            Inl e \<Rightarrow> Inl (e, self1)
                          | Inr m \<Rightarrow> Inr (setattr self1 ''model'' (VModel (model_to H m (Inl d))))))
           of Inl r \<Rightarrow> Inl r
            | Inr self4 \<Rightarrow>
                (let self5 = setattr self4 ''iter_num'' (VInt 0);
                     self6 = setattr self5 ''iter_time'' (VFloat 0)
                 in Inr (setattr self6 ''iter_dt'' (VFloat 0)))))"

text \<open>
  \<^verbatim>\<open>__init__\<close>. The name \<^verbatim>\<open>confit\<close> is read as every name is; the names the module binds
  are modules, classes and functions, none of which has an attribute \<^verbatim>\<open>use_fsdp\<close>.
\<close>

definition init ::
  "'m host \<Rightarrow> config \<Rightarrow> 'm \<Rightarrow> 'd \<Rightarrow> exn \<times> ('m, 'd) object + ('m, 'd) object" where
  "init H cfg model dataset =
     (let self1 = setattr [] ''config'' (VConfig cfg);
          self2 = setattr self1 ''model'' (VModel model);
          self3 = setattr self2 ''optimizer'' VNone;
          self4 = setattr self3 ''train_dataset'' (VDataset dataset);
          self5 = setattr self4 ''callbacks'' (VCallbacks Map.empty)
      in case resolve init_locals ''confit'' of
           Inl e \<Rightarrow> Inl (e, self5)
         | Inr _ \<Rightarrow> Inl (AttributeError ''use_fsdp'', self5))"

subsection \<open>Sample inputs\<close>

text \<open>
  A fresh trainer on a configuration and a fresh world; an environment with three
  callbacks, of which 0 returns, 1 sets the loss field and returns, and 2 raises; a clock
  that counts; a configuration of two micro-batches and one iteration; a world whose loader
  has 157 batches; a registry of callbacks that return and one with a callback that raises
  between two that return.
\<close>

definition new_trainer :: "config \<Rightarrow> trainer" where
  "new_trainer c =
     \<lparr>config = c, use_fsdp = cfg_use_fsdp c, iter_num = 0, iter_time = 0, iter_dt = 0,
      loss = None\<rparr>"

definition new_world :: world where
  "new_world = \<lparr>grad = None, loader_len = 0, data_pos = 0, clock = 0, log = []\<rparr>"

definition sample_env :: env where
  "sample_env =
     \<lparr>cb = (\<lambda>c t. if c = 2 then (Some (CallbackError c), t)
                   else if c = 1 then (None, t\<lparr>loss := None\<rparr>)
                   else (None, t)),
      now = (\<lambda>n. real n), dataset_len = 10000, world_size = 1\<rparr>"

definition no_callbacks :: registry where
  "no_callbacks = Map.empty"

definition sample_config :: config where
  "sample_config = get_default_config\<lparr>max_iters := Some 1, cross_batch_num := 2\<rparr>"

definition ready_world :: world where
  "ready_world = new_world\<lparr>loader_len := 157\<rparr>"

definition registry_returning :: registry where
  "registry_returning = fold (\<lambda>c r. add_callback r ''on_batch_end'' c) [0, 1] no_callbacks"

definition registry_raising :: registry where
  "registry_raising = fold (\<lambda>c r. add_callback r ''on_batch_end'' c) [1, 2, 0] no_callbacks"

text \<open>A process with no environment variables and a CUDA device.\<close>

definition sample_host :: "nat host" where
  "sample_host =
     \<lparr>environ = Map.empty, int_of_str = (\<lambda>s. None), cuda_is_available = True,
      model_to = (\<lambda>m d. m), fsdp = (\<lambda>m. Suc m)\<rparr>"

section \<open>Properties of the sort dataset\<close>

lemma randint_Inr:
  "randint g i high sz = Inr inp \<Longrightarrow>
     0 \<le> sz \<and> 0 < high \<and> length inp = nat sz \<and> (\<forall>v \<in> set inp. 0 \<le> v \<and> v < high)"
  by (auto simp: randint_def split: if_splits)

text \<open>
  A candidate that the loop returns was drawn at some attempt \<open>j\<close> within the fuel, carries
  the label asked for, and every attempt before \<open>j\<close> was rejected.
\<close>

lemma sample_loop_Inr:
  "sample_loop P self g fuel i = Some (Inr inp) \<Longrightarrow>
     \<exists>j. i \<le> j \<and> j < i + fuel
        \<and> randint g j (num_digits self) (length_ds self) = Inr inp
        \<and> split_label P inp = split self
        \<and> \<not> rejected P self g j
        \<and> (\<forall>m. i \<le> m \<and> m < j \<longrightarrow> rejected P self g m)"
proof (induction fuel arbitrary: i)
  case 0
  then show ?case by simp
next
  case (Suc fuel)
  show ?case
  proof (cases "randint g i (num_digits self) (length_ds self)")
    case (Inl e)
    with Suc.prems show ?thesis by simp
  next
    case (Inr cand)
    show ?thesis
    proof (cases "rejected P self g i")
      case True
      with Inr Suc.prems have "sample_loop P self g fuel (Suc i) = Some (Inr inp)"
        by (auto simp: rejected_def split: if_splits)
      from Suc.IH[OF this] obtain j where j: "Suc i \<le> j" "j < Suc i + fuel"
        "randint g j (num_digits self) (length_ds self) = Inr inp"
        "split_label P inp = split self" "\<not> rejected P self g j"
        "\<forall>m. Suc i \<le> m \<and> m < j \<longrightarrow> rejected P self g m"
        by blast
      have "\<forall>m. i \<le> m \<and> m < j \<longrightarrow> rejected P self g m"
        using j(6) True by (metis Suc_leI le_neq_implies_less)
      with j show ?thesis
        by (intro exI[of _ j]) auto
    next
      case False
      with Inr Suc.prems have "cand = inp" "split_label P inp = split self"
        by (auto simp: rejected_def split: if_splits)
      with Inr False show ?thesis
        by (intro exI[of _ i]) auto
    qed
  qed
qed



lemma getitem_Inr:
  "getitem P self g fuel idx = Some (Inr ex) \<Longrightarrow>
     \<exists>inp. sample_loop P self g fuel 0 = Some (Inr inp) \<and> ex = make_example self inp"
  by (auto simp: getitem_def split: option.splits sum.splits)

text \<open>For a sequence length of at least one the example has a closed form.\<close>

lemma make_example_eq:
  assumes "1 \<le> length_ds self" and "length inp = nat (length_ds self)"
  shows "make_example self inp =
           (inp @ butlast (sort inp), replicate (nat (length_ds self) - 1) (- 1) @ sort inp)"
proof -
  from assms obtain a as where inp: "inp = a # as"
    by (cases inp) auto
  have ne: "sort inp \<noteq> []"
    using inp by (metis length_sort list.size(3) list.distinct(1) length_0_conv)
  have len: "length as = nat (length_ds self) - 1" using assms inp by simp
  have m: "min (length_ds self - 1) (int (length as) + int (length (sort inp))) = length_ds self - 1"
    using assms inp by simp
  have "fill_prefix (length_ds self - 1) (- 1) (as @ sort inp)
          = replicate (nat (length_ds self) - 1) (- 1) @ sort inp"
    using assms len unfolding fill_prefix_def Let_def
    by (simp add: m nat_diff_distrib)
  then show ?thesis
    using ne inp unfolding make_example_def Let_def
    by (simp add: butlast_append)
qed

text \<open>The input part \<open>x\<close> of an example determines the candidate it was built from.\<close>

lemma make_example_fst_inj:
  assumes "fst (make_example d1 inp1) = fst (make_example d2 inp2)"
  shows "inp1 = inp2"
proof -
  have eq: "butlast (inp1 @ sort inp1) = butlast (inp2 @ sort inp2)"
    using assms by (simp add: make_example_def Let_def)
  then have "length (butlast (inp1 @ sort inp1)) = length (butlast (inp2 @ sort inp2))"
    by simp
  then have len: "length inp1 = length inp2" by simp
  show ?thesis
  proof (cases inp1)
    case Nil
    with len show ?thesis by simp
  next
    case (Cons a as)
    then have ne1: "sort inp1 \<noteq> []" by (metis length_sort length_0_conv list.distinct(1))
    from Cons len have "inp2 \<noteq> []" by auto
    then have ne2: "sort inp2 \<noteq> []" by (metis length_sort length_0_conv)
    from eq ne1 ne2 have "inp1 @ butlast (sort inp1) = inp2 @ butlast (sort inp2)"
      by (simp add: butlast_append)
    with len show ?thesis by simp
  qed
qed

text \<open>
  Within one process, that is for one runtime, the label of a candidate is \<open>''test''\<close>
  exactly when the hash of the serialized candidate is 0 modulo 4 and \<open>''train''\<close>
  otherwise; every example that \<open>getitem\<close> returns was built from a candidate whose label is
  the split of the dataset, whatever the index, the generator and the number of attempts;
  and two calls that return the same input sequence, on any two datasets, generators,
  indices and attempt counts, belong to datasets of the same split.
\<close>

lemma split_label_within_one_process:
  "(split_label P inp = ''test'' \<longleftrightarrow> hash P (pickle_dumps P inp) mod 4 = 0)
 \<and> (split_label P inp = ''train'' \<longleftrightarrow> hash P (pickle_dumps P inp) mod 4 \<noteq> 0)
 \<and> (getitem P d g fuel idx = Some (Inr ex) \<longrightarrow>
       (\<exists>inp. ex = make_example d inp \<and> split d = split_label P inp))
 \<and> (getitem P d1 g1 fuel1 idx1 = Some (Inr (x, y1)) \<and>
     getitem P d2 g2 fuel2 idx2 = Some (Inr (x, y2)) \<longrightarrow> split d1 = split d2)"
proof (intro conjI impI)
  show "split_label P inp = ''test'' \<longleftrightarrow> hash P (pickle_dumps P inp) mod 4 = 0"
    by (simp add: split_label_def Let_def)
  show "split_label P inp = ''train'' \<longleftrightarrow> hash P (pickle_dumps P inp) mod 4 \<noteq> 0"
    by (simp add: split_label_def Let_def)
next
  assume "getitem P d g fuel idx = Some (Inr ex)"
  from getitem_Inr[OF this] obtain inp where
    sl: "sample_loop P d g fuel 0 = Some (Inr inp)" and ex: "ex = make_example d inp" by blast
  from sample_loop_Inr[OF sl] have "split_label P inp = split d" by blast
  with ex show "\<exists>inp. ex = make_example d inp \<and> split d = split_label P inp" by auto
next
  assume a: "getitem P d1 g1 fuel1 idx1 = Some (Inr (x, y1)) \<and>
     getitem P d2 g2 fuel2 idx2 = Some (Inr (x, y2))"
  from a getitem_Inr obtain inp1 where
    sl1: "sample_loop P d1 g1 fuel1 0 = Some (Inr inp1)" and ex1: "(x, y1) = make_example d1 inp1"
    by blast
  from a getitem_Inr obtain inp2 where
    sl2: "sample_loop P d2 g2 fuel2 0 = Some (Inr inp2)" and ex2: "(x, y2) = make_example d2 inp2"
    by blast
  have "fst (make_example d1 inp1) = fst (make_example d2 inp2)"
    using ex1 ex2 by (metis fst_conv)
  then have "inp1 = inp2" by (rule make_example_fst_inj)
  moreover from sample_loop_Inr[OF sl1] have "split_label P inp1 = split d1" by blast
  moreover from sample_loop_Inr[OF sl2] have "split_label P inp2 = split d2" by blast
  ultimately show "split d1 = split d2" by simp
qed

text \<open>
  Claim C6. The label is not a function of the content alone: it is computed with the
  hash of the process that runs \<^verbatim>\<open>__getitem__\<close>. For the content \<open>0 0 2 1 0 1\<close>, a process
  whose hash of the serialized content is 4 gives the label \<open>''test''\<close> and a process whose
  hash of it is 1 gives \<open>''train''\<close>; so the test dataset in the first process and the
  training dataset in the second return the same example, from the same draws of the
  generator: identical contents do not always receive the identical label.
\<close>

theorem split_label_differs_between_processes:
  "split_label rt_sum [0, 0, 2, 1, 0, 1] = ''test''
 \<and> split_label rt_one [0, 0, 2, 1, 0, 1] = ''train''
 \<and> getitem rt_sum test_dataset gen_c 1 0
       = Some (Inr ([0, 0, 2, 1, 0, 1, 0, 0, 0, 1, 1], [- 1, - 1, - 1, - 1, - 1, 0, 0, 0, 1, 1, 2]))
 \<and> getitem rt_one train_dataset gen_c 1 0
       = Some (Inr ([0, 0, 2, 1, 0, 1, 0, 0, 0, 1, 1], [- 1, - 1, - 1, - 1, - 1, 0, 0, 0, 1, 1, 2]))"
proof (intro conjI)
  show "split_label rt_sum [0, 0, 2, 1, 0, 1] = ''test''"
    by (simp add: split_label_def rt_sum_def)
  show "split_label rt_one [0, 0, 2, 1, 0, 1] = ''train''"
    by (simp add: split_label_def rt_one_def)
  show "getitem rt_sum test_dataset gen_c 1 0
       = Some (Inr ([0, 0, 2, 1, 0, 1, 0, 0, 0, 1, 1], [- 1, - 1, - 1, - 1, - 1, 0, 0, 0, 1, 1, 2]))"
    by code_simp
  show "getitem rt_one train_dataset gen_c 1 0
       = Some (Inr ([0, 0, 2, 1, 0, 1, 0, 0, 0, 1, 1], [- 1, - 1, - 1, - 1, - 1, 0, 0, 0, 1, 1, 2]))"
    by code_simp
qed

text \<open>
  Claim C7 (as stated) fails for the sequence length \<open>L = 0\<close>: the dataset returns the pair
  of empty sequences, whose length 0 is not \<open>2L - 1 = -1\<close>.
\<close>

theorem getitem_length_zero_example:
  "getitem rt_one empty_dataset gen_b 1 0 = Some (Inr ([], []))
 \<and> length_ds empty_dataset = 0
 \<and> int (length ([] :: int list)) \<noteq> 2 * length_ds empty_dataset - 1"
proof (intro conjI)
  show "getitem rt_one empty_dataset gen_b 1 0 = Some (Inr ([], []))"
    by code_simp
  show "length_ds empty_dataset = 0"
    by (simp add: empty_dataset_def)
  show "int (length ([] :: int list)) \<noteq> 2 * length_ds empty_dataset - 1"
    by (simp add: empty_dataset_def)
qed

text \<open>
  Claim C7 (amended). For a sequence length \<open>L\<close> of at least one, every example \<open>(x, y)\<close> that
  \<open>getitem\<close> returns has \<open>x\<close> and \<open>y\<close> of the same length \<open>2L - 1\<close>; the first \<open>L - 1\<close>
  positions of \<open>y\<close> hold the ignore value \<open>-1\<close> and no later position does; and the last
  \<open>L\<close> positions of \<open>y\<close> are sorted and are a permutation of the first \<open>L\<close> positions of
  \<open>x\<close>.
\<close>

theorem getitem_example_shape:
  assumes "getitem P self g fuel idx = Some (Inr (x, y))" and "1 \<le> length_ds self"
  shows "length x = length y
       \<and> int (length x) = 2 * length_ds self - 1
       \<and> (\<forall>i < nat (length_ds self) - 1. y ! i = - 1)
       \<and> (\<forall>i. nat (length_ds self) - 1 \<le> i \<and> i < length y \<longrightarrow> y ! i \<noteq> - 1)
       \<and> length (drop (nat (length_ds self) - 1) y) = nat (length_ds self)
       \<and> sorted (drop (nat (length_ds self) - 1) y)
       \<and> mset (drop (nat (length_ds self) - 1) y) = mset (take (nat (length_ds self)) x)"
proof -
  from getitem_Inr[OF assms(1)] obtain inp where
    sl: "sample_loop P self g fuel 0 = Some (Inr inp)" and ex: "(x, y) = make_example self inp"
    by blast
  from sample_loop_Inr[OF sl] obtain j where
    ri: "randint g j (num_digits self) (length_ds self) = Inr inp" by blast
  from randint_Inr[OF ri] have len: "length inp = nat (length_ds self)"
    and rng: "\<forall>v \<in> set inp. 0 \<le> v \<and> v < num_digits self" by auto
  from make_example_eq[OF assms(2) len] ex
  have x: "x = inp @ butlast (sort inp)"
    and y: "y = replicate (nat (length_ds self) - 1) (- 1) @ sort inp" by auto
  have nonneg: "\<forall>v \<in> set (sort inp). v \<noteq> - 1" using rng by auto
  have c1: "length x = length y" using x y len assms(2) by simp
  have c2: "int (length x) = 2 * length_ds self - 1" using x len assms(2) by simp
  have c3: "\<forall>i < nat (length_ds self) - 1. y ! i = - 1"
    using y by (simp add: nth_append)
  have c4: "\<forall>i. nat (length_ds self) - 1 \<le> i \<and> i < length y \<longrightarrow> y ! i \<noteq> - 1"
  proof (intro allI impI)
    fix i assume i: "nat (length_ds self) - 1 \<le> i \<and> i < length y"
    then have "y ! i = sort inp ! (i - (nat (length_ds self) - 1))"
      using y by (simp add: nth_append)
    moreover have "i - (nat (length_ds self) - 1) < length (sort inp)"
      using i y by auto
    ultimately show "y ! i \<noteq> - 1" using nonneg by (metis nth_mem)
  qed
  have d: "drop (nat (length_ds self) - 1) y = sort inp" using y by simp
  have t: "take (nat (length_ds self)) x = inp" using x len by simp
  show ?thesis using c1 c2 c3 c4 d t len by simp
qed

text \<open>The theorem at work on the example that \<open>gen_a\<close> gives the training dataset.\<close>

theorem getitem_example_shape_witness:
  "getitem rt_sum train_dataset gen_a 5 0 = Some (Inr ([1, 2, 2, 1, 2, 2, 1, 1, 2, 2, 2], [- 1, - 1, - 1, - 1, - 1, 1, 1, 2, 2, 2, 2]))
   \<and> 1 \<le> length_ds train_dataset
   \<and> int (length [1, 2, 2, 1, 2, 2, 1, 1, 2, 2, 2 :: int]) = 2 * length_ds train_dataset - 1
   \<and> sorted (drop (nat (length_ds train_dataset) - 1)
        [- 1, - 1, - 1, - 1, - 1, 1, 1, 2, 2, 2, 2 :: int])
   \<and> mset (drop (nat (length_ds train_dataset) - 1)
        [- 1, - 1, - 1, - 1, - 1, 1, 1, 2, 2, 2, 2 :: int])
       = mset (take (nat (length_ds train_dataset)) [1, 2, 2, 1, 2, 2, 1, 1, 2, 2, 2 :: int])"
proof -
  have h1: "getitem rt_sum train_dataset gen_a 5 0 = Some (Inr ([1, 2, 2, 1, 2, 2, 1, 1, 2, 2, 2], [- 1, - 1, - 1, - 1, - 1, 1, 1, 2, 2, 2, 2]))"
    by code_simp
  have h2: "1 \<le> length_ds train_dataset" by (simp add: train_dataset_def)
  note t = getitem_example_shape[OF h1 h2]
  from t have c2: "int (length [1, 2, 2, 1, 2, 2, 1, 1, 2, 2, 2 :: int])
      = 2 * length_ds train_dataset - 1"
    by (elim conjE)
  from t have c6: "sorted (drop (nat (length_ds train_dataset) - 1)
        [- 1, - 1, - 1, - 1, - 1, 1, 1, 2, 2, 2, 2 :: int])"
    by (elim conjE)
  from t have c7: "mset (drop (nat (length_ds train_dataset) - 1)
        [- 1, - 1, - 1, - 1, - 1, 1, 1, 2, 2, 2, 2 :: int])
       = mset (take (nat (length_ds train_dataset)) [1, 2, 2, 1, 2, 2, 1, 1, 2, 2, 2 :: int])"
    by (elim conjE)
  show ?thesis
    by (intro conjI h1 h2 c2 c6 c7)
qed



section \<open>Properties of the training loop\<close>

subsection \<open>Fetching and the inner loop\<close>

lemma fetch_batch_more:
  "data_pos w < loader_len w \<Longrightarrow>
     fetch_batch w =
       Inr (data_pos w, w\<lparr>data_pos := Suc (data_pos w), log := log w @ [Fetch (data_pos w)]\<rparr>)"
  by (simp add: fetch_batch_def next_batch_def)

lemma resolve_train_loader: "resolve run_locals ''train_loader'' = Inl (NameError ''train_loader'')"
  by (simp add: resolve_def run_locals_def module_globals_def builtins_used_def)

lemma fetch_batch_exhausted:
  "\<not> data_pos w < loader_len w \<Longrightarrow> fetch_batch w = Inl (NameError ''train_loader'')"
  by (simp add: fetch_batch_def next_batch_def resolve_train_loader)

lemma micro_batch_more:
  "data_pos w < loader_len w \<Longrightarrow>
     micro_batch t w =
       Returns (t\<lparr>loss := Some (data_pos w)\<rparr>)
         (w\<lparr>grad := Some [data_pos w], data_pos := Suc (data_pos w),
            log := log w @ micro_events (grad_norm_clip (config t)) (data_pos w)\<rparr>)"
  by (simp add: micro_batch_def fetch_batch_more zero_grad_def backward_def clip_grad_norm_def
      micro_events_def)

lemma micro_batch_exhausted:
  "\<not> data_pos w < loader_len w \<Longrightarrow> micro_batch t w = Raises (NameError ''train_loader'') t w"
  by (simp add: micro_batch_def fetch_batch_exhausted)

lemma concat_micro_events_step:
  "concat (map f [p ..< p + Suc n]) = f p @ concat (map f [Suc p ..< Suc p + n])"
  by (simp add: upt_conv_Cons del: upt_Suc)

lemma inner_loop_more:
  "data_pos w + n \<le> loader_len w \<Longrightarrow>
     inner_loop n t w =
       Returns (t\<lparr>loss := (if n = 0 then loss t else Some (data_pos w + n - 1))\<rparr>)
         (w\<lparr>grad := (if n = 0 then grad w else Some [data_pos w + n - 1]),
            data_pos := data_pos w + n,
            log := log w @ concat (map (micro_events (grad_norm_clip (config t)))
                                    [data_pos w ..< data_pos w + n])\<rparr>)"
proof (induction n arbitrary: t w)
  case 0
  then show ?case by simp
next
  case (Suc n)
  have lt: "data_pos w < loader_len w" using Suc.prems by simp
  let ?t1 = "t\<lparr>loss := Some (data_pos w)\<rparr>"
  let ?w1 = "w\<lparr>grad := Some [data_pos w], data_pos := Suc (data_pos w),
            log := log w @ micro_events (grad_norm_clip (config t)) (data_pos w)\<rparr>"
  have "data_pos ?w1 + n \<le> loader_len ?w1" using Suc.prems by simp
  from Suc.IH[OF this, of ?t1]
  have ih: "inner_loop n ?t1 ?w1 =
       Returns (?t1\<lparr>loss := (if n = 0 then loss ?t1 else Some (data_pos ?w1 + n - 1))\<rparr>)
         (?w1\<lparr>grad := (if n = 0 then grad ?w1 else Some [data_pos ?w1 + n - 1]),
            data_pos := data_pos ?w1 + n,
            log := log ?w1 @ concat (map (micro_events (grad_norm_clip (config ?t1)))
                                    [data_pos ?w1 ..< data_pos ?w1 + n])\<rparr>)" .
  have step: "inner_loop (Suc n) t w = inner_loop n ?t1 ?w1"
    by (simp add: micro_batch_more[OF lt])
  show ?case
    unfolding step ih concat_micro_events_step
    by (cases "n = 0") (simp_all del: upt_Suc)
qed

lemma inner_loop_exhausted:
  "data_pos w \<le> loader_len w \<Longrightarrow> loader_len w < data_pos w + n \<Longrightarrow>
     \<exists>t1 w1. inner_loop n t w = Raises (NameError ''train_loader'') t1 w1
        \<and> config t1 = config t \<and> iter_num t1 = iter_num t
        \<and> count_ev is_opt_step (log w1) = count_ev is_opt_step (log w)"
proof (induction n arbitrary: t w)
  case 0
  then show ?case by simp
next
  case (Suc n)
  show ?case
  proof (cases "data_pos w < loader_len w")
    case True
    let ?t1 = "t\<lparr>loss := Some (data_pos w)\<rparr>"
    let ?w1 = "w\<lparr>grad := Some [data_pos w], data_pos := Suc (data_pos w),
            log := log w @ micro_events (grad_norm_clip (config t)) (data_pos w)\<rparr>"
    have a: "data_pos ?w1 \<le> loader_len ?w1" using True by simp
    have b: "loader_len ?w1 < data_pos ?w1 + n" using Suc.prems by simp
    from Suc.IH[OF a b, of ?t1] obtain t1 w1 where
      r: "inner_loop n ?t1 ?w1 = Raises (NameError ''train_loader'') t1 w1"
      and c: "config t1 = config ?t1" "iter_num t1 = iter_num ?t1"
      and k: "count_ev is_opt_step (log w1) = count_ev is_opt_step (log ?w1)"
      by blast
    have "count_ev is_opt_step (log ?w1) = count_ev is_opt_step (log w)"
      by (simp add: count_ev_def micro_events_def)
    with r c k show ?thesis
      by (simp add: micro_batch_more[OF True])
  next
    case False
    then show ?thesis
      by (simp add: micro_batch_exhausted)
  qed
qed

subsection \<open>Counting and callbacks\<close>

lemma count_ev_append: "count_ev p (xs @ ys) = count_ev p xs + count_ev p ys"
  by (simp add: count_ev_def)

lemma count_micro_events:
  "count_ev is_forward (concat (map (micro_events c) bs)) = length bs"
  "count_ev is_backward (concat (map (micro_events c) bs)) = length bs"
  "count_ev is_zero_grad (concat (map (micro_events c) bs)) = length bs"
  "count_ev is_clip (concat (map (micro_events c) bs)) = length bs"
  "count_ev is_opt_step (concat (map (micro_events c) bs)) = 0"
  "count_ev is_trigger (concat (map (micro_events c) bs)) = 0"
  "count_ev is_call (concat (map (micro_events c) bs)) = 0"
  by (induction bs) (simp_all add: count_ev_def micro_events_def)

lemma count_calls:
  "count_ev is_forward (map Call cs) = 0"
  "count_ev is_backward (map Call cs) = 0"
  "count_ev is_zero_grad (map Call cs) = 0"
  "count_ev is_clip (map Call cs) = 0"
  "count_ev is_opt_step (map Call cs) = 0"
  "count_ev is_trigger (map Call cs) = 0"
  "count_ev is_call (map Call cs) = length cs"
  by (induction cs) (simp_all add: count_ev_def)

lemma call_each_log:
  "\<exists>calls rest. cs = calls @ rest \<and> outcome_log (call_each E cs t w) = log w @ map Call calls"
proof (induction cs arbitrary: t w)
  case Nil
  then show ?case by simp
next
  case (Cons c cs)
  obtain r t1 where cb: "cb E c t = (r, t1)" by (cases "cb E c t")
  show ?case
  proof (cases r)
    case None
    from Cons.IH[of t1 "w\<lparr>log := log w @ [Call c]\<rparr>"] obtain calls rest where
      "cs = calls @ rest"
      "outcome_log (call_each E cs t1 (w\<lparr>log := log w @ [Call c]\<rparr>))
         = log (w\<lparr>log := log w @ [Call c]\<rparr>) @ map Call calls" by blast
    with cb None show ?thesis
      by (intro exI[of _ "c # calls"] exI[of _ rest]) simp
  next
    case (Some e)
    with cb show ?thesis
      by (intro exI[of _ "[c]"] exI[of _ cs]) simp
  qed
qed

lemma call_each_returns:
  "(\<forall>c \<in> set cs. \<forall>s. fst (cb E c s) = None) \<Longrightarrow>
     call_each E cs t w =
       Returns (fold (\<lambda>c s. snd (cb E c s)) cs t) (w\<lparr>log := log w @ map Call cs\<rparr>)"
proof (induction cs arbitrary: t w)
  case Nil
  then show ?case by simp
next
  case (Cons c cs)
  obtain r t1 where cb: "cb E c t = (r, t1)" by (cases "cb E c t")
  with Cons.prems have r: "r = None" by (metis fst_conv list.set_intros(1))
  have "\<forall>c \<in> set cs. \<forall>s. fst (cb E c s) = None" using Cons.prems by simp
  from Cons.IH[OF this, of t1 "w\<lparr>log := log w @ [Call c]\<rparr>"] cb r
  show ?case by simp
qed


subsection \<open>One pass of the outer loop\<close>

lemma cycle_after_inner:
  "inner_loop (nat steps) t w = Returns t1 w1 \<Longrightarrow>
     outcome_log (cycle E callbacks steps t w)
       = outcome_log (trigger_callbacks E callbacks ''on_batch_end'' t1 (optimizer_step w1))"
  by (cases "trigger_callbacks E callbacks ''on_batch_end'' t1 (optimizer_step w1)")
     (simp_all add: cycle_def Let_def)

lemma cycle_log:
  assumes "data_pos w + nat steps \<le> loader_len w"
  shows "\<exists>calls rest.
           callbacks_get callbacks ''on_batch_end'' = calls @ rest
         \<and> outcome_log (cycle E callbacks steps t w)
             = log w
               @ concat (map (micro_events (grad_norm_clip (config t)))
                           [data_pos w ..< data_pos w + nat steps])
               @ OptStep (if nat steps = 0 then (case grad w of None \<Rightarrow> [] | Some bs \<Rightarrow> bs)
                          else [data_pos w + nat steps - 1])
               # Trigger ''on_batch_end'' # map Call calls"
proof -
  let ?cs = "callbacks_get callbacks ''on_batch_end''"
  let ?t1 = "t\<lparr>loss := (if nat steps = 0 then loss t else Some (data_pos w + nat steps - 1))\<rparr>"
  let ?w1 = "w\<lparr>grad := (if nat steps = 0 then grad w else Some [data_pos w + nat steps - 1]),
            data_pos := data_pos w + nat steps,
            log := log w @ concat (map (micro_events (grad_norm_clip (config t)))
                                    [data_pos w ..< data_pos w + nat steps])\<rparr>"
  let ?w2 = "(optimizer_step ?w1)\<lparr>log := log (optimizer_step ?w1) @ [Trigger ''on_batch_end'']\<rparr>"
  have inner: "inner_loop (nat steps) t w = Returns ?t1 ?w1"
    by (rule inner_loop_more[OF assms])
  from call_each_log[of ?cs E ?t1 ?w2] obtain calls rest where
    cs: "?cs = calls @ rest" and
    lg: "outcome_log (call_each E ?cs ?t1 ?w2) = log ?w2 @ map Call calls" by blast
  have "outcome_log (cycle E callbacks steps t w) = log ?w2 @ map Call calls"
    using cycle_after_inner[OF inner, of E callbacks] lg
    by (simp add: trigger_callbacks_def)
  moreover have "log ?w2 = log w
               @ concat (map (micro_events (grad_norm_clip (config t)))
                           [data_pos w ..< data_pos w + nat steps])
               @ [OptStep (if nat steps = 0 then (case grad w of None \<Rightarrow> [] | Some bs \<Rightarrow> bs)
                          else [data_pos w + nat steps - 1]), Trigger ''on_batch_end'']"
    by (simp add: optimizer_step_def)
  ultimately show ?thesis using cs by auto
qed

text \<open>
  Claim C3. In a pass of the outer loop that the data loader can feed, with
  \<open>cross_batch_num = steps\<close>: the inner loop returns after \<open>nat steps\<close> forward and as many
  backward passes, none of its calls is an optimizer step, a dispatch or a callback; what
  follows it holds exactly one optimizer step and exactly one dispatch, that of
  \<open>''on_batch_end''\<close>, in this order, and no forward or backward pass. (\<open>nat steps\<close> is
  \<open>steps\<close> for \<open>steps \<ge> 0\<close> and 0 below, as \<^verbatim>\<open>range(steps)\<close> has it.)
\<close>

theorem cycle_one_step_one_dispatch:
  assumes "data_pos w + nat steps \<le> loader_len w"
  shows "\<exists>t1 w1 inner post.
           inner_loop (nat steps) t w = Returns t1 w1
         \<and> log w1 = log w @ inner
         \<and> outcome_log (cycle E callbacks steps t w) = log w @ inner @ post
         \<and> count_ev is_forward inner = nat steps \<and> count_ev is_backward inner = nat steps
         \<and> count_ev is_opt_step inner = 0 \<and> count_ev is_trigger inner = 0
         \<and> count_ev is_call inner = 0
         \<and> count_ev is_forward post = 0 \<and> count_ev is_backward post = 0
         \<and> count_ev is_opt_step post = 1 \<and> count_ev is_trigger post = 1
         \<and> is_opt_step (hd post) \<and> hd (tl post) = Trigger ''on_batch_end''"
proof -
  define inner where
    "inner = concat (map (micro_events (grad_norm_clip (config t)))
                           [data_pos w ..< data_pos w + nat steps])"
  define g where
    "g = (if nat steps = 0 then (case grad w of None \<Rightarrow> [] | Some bs \<Rightarrow> bs)
          else [data_pos w + nat steps - 1])"
  from cycle_log[OF assms, of callbacks E t] obtain calls rest where
    lg: "outcome_log (cycle E callbacks steps t w)
             = log w @ inner @ OptStep g # Trigger ''on_batch_end'' # map Call calls"
    unfolding inner_def g_def by blast
  define post where "post = OptStep g # Trigger ''on_batch_end'' # map Call calls"
  have cp: "count_ev is_forward post = 0" "count_ev is_backward post = 0"
       "count_ev is_opt_step post = 1" "count_ev is_trigger post = 1"
    using count_calls[of calls] by (simp_all add: count_ev_def post_def)
  have hp: "is_opt_step (hd post)" "hd (tl post) = Trigger ''on_batch_end''"
    by (simp_all add: post_def)
  have ci: "count_ev is_forward inner = nat steps" "count_ev is_backward inner = nat steps"
    "count_ev is_opt_step inner = 0" "count_ev is_trigger inner = 0" "count_ev is_call inner = 0"
    by (simp_all add: inner_def count_micro_events)
  obtain t1 w1 where il: "inner_loop (nat steps) t w = Returns t1 w1"
    and l1: "log w1 = log w @ inner"
    using inner_loop_more[OF assms, of t] by (simp add: inner_def)
  from lg have lg': "outcome_log (cycle E callbacks steps t w) = log w @ inner @ post"
    by (simp add: post_def)
  from il l1 lg' ci cp hp show ?thesis by blast
qed

text \<open>
  The theorem at work: two micro-batches on a loader of 157 batches, with the callbacks
  1, 2 and 0 registered, of which 2 raises.
\<close>

theorem cycle_one_step_one_dispatch_witness:
  "data_pos ready_world + nat 2 \<le> loader_len ready_world
 \<and> (\<exists>t1 w1 inner post.
           inner_loop (nat 2) (new_trainer sample_config) ready_world = Returns t1 w1
         \<and> log w1 = log ready_world @ inner
         \<and> outcome_log (cycle sample_env registry_raising 2 (new_trainer sample_config) ready_world)
             = log ready_world @ inner @ post
         \<and> count_ev is_forward inner = nat 2 \<and> count_ev is_backward inner = nat 2
         \<and> count_ev is_opt_step inner = 0 \<and> count_ev is_trigger inner = 0
         \<and> count_ev is_call inner = 0
         \<and> count_ev is_forward post = 0 \<and> count_ev is_backward post = 0
         \<and> count_ev is_opt_step post = 1 \<and> count_ev is_trigger post = 1
         \<and> is_opt_step (hd post) \<and> hd (tl post) = Trigger ''on_batch_end'')
 \<and> outcome_log (cycle sample_env registry_raising 2 (new_trainer sample_config) ready_world)
      = [Fetch 0, Forward 0, ZeroGrad, Backward 0, ClipGrad 1,
         Fetch 1, Forward 1, ZeroGrad, Backward 1, ClipGrad 1,
         OptStep [1], Trigger ''on_batch_end'', Call 1, Call 2]"
proof -
  have h: "data_pos ready_world + nat 2 \<le> loader_len ready_world"
    by (simp add: ready_world_def new_world_def)
  have ev: "outcome_log (cycle sample_env registry_raising 2 (new_trainer sample_config) ready_world)
      = [Fetch 0, Forward 0, ZeroGrad, Backward 0, ClipGrad 1,
         Fetch 1, Forward 1, ZeroGrad, Backward 1, ClipGrad 1,
         OptStep [1], Trigger ''on_batch_end'', Call 1, Call 2]"
    by code_simp
  note t = cycle_one_step_one_dispatch[OF h, of "new_trainer sample_config" sample_env
      registry_raising]
  show ?thesis
    by (intro conjI h t ev)
qed






text \<open>
  Claim C4. In a pass of the outer loop that the data loader can feed, every micro-batch
  is fetch, forward, zero, backward, clip, with the norm \<open>grad_norm_clip\<close> of the
  configuration: the clipping follows at once the backward pass of its own micro-batch.
  The inner loop adds \<open>nat steps\<close> backward passes and \<open>nat steps\<close> clippings to the log,
  and the optimizer step comes after all of them, followed by the dispatch alone.
\<close>

theorem clip_after_each_backward:
  assumes "data_pos w + nat steps \<le> loader_len w"
  shows "\<exists>t1 w1 g calls.
           inner_loop (nat steps) t w = Returns t1 w1
         \<and> log w1 = log w @ concat (map (\<lambda>b. [Fetch b, Forward b, ZeroGrad, Backward b,
                                               ClipGrad (grad_norm_clip (config t))])
                                     [data_pos w ..< data_pos w + nat steps])
         \<and> count_ev is_backward (log w1) = count_ev is_backward (log w) + nat steps
         \<and> count_ev is_clip (log w1) = count_ev is_clip (log w) + nat steps
         \<and> outcome_log (cycle E callbacks steps t w)
             = log w1 @ OptStep g # Trigger ''on_batch_end'' # map Call calls"
proof -
  define inner where
    "inner = concat (map (micro_events (grad_norm_clip (config t)))
                           [data_pos w ..< data_pos w + nat steps])"
  obtain t1 w1 where il: "inner_loop (nat steps) t w = Returns t1 w1"
    and l1: "log w1 = log w @ inner"
    using inner_loop_more[OF assms, of t] by (simp add: inner_def)
  have me: "micro_events (grad_norm_clip (config t)) =
      (\<lambda>b. [Fetch b, Forward b, ZeroGrad, Backward b, ClipGrad (grad_norm_clip (config t))])"
    by (rule ext) (simp add: micro_events_def)
  have l1': "log w1 = log w @ concat (map (\<lambda>b. [Fetch b, Forward b, ZeroGrad, Backward b,
                                               ClipGrad (grad_norm_clip (config t))])
                                     [data_pos w ..< data_pos w + nat steps])"
    using l1 unfolding inner_def me .
  have cb: "count_ev is_backward (log w1) = count_ev is_backward (log w) + nat steps"
    and cc: "count_ev is_clip (log w1) = count_ev is_clip (log w) + nat steps"
    using l1 by (simp_all add: inner_def count_ev_append count_micro_events)
  from cycle_log[OF assms, of callbacks E t] obtain g calls where
    "outcome_log (cycle E callbacks steps t w)
             = log w @ inner @ OptStep g # Trigger ''on_batch_end'' # map Call calls"
    unfolding inner_def by blast
  with l1 have lg: "outcome_log (cycle E callbacks steps t w)
             = log w1 @ OptStep g # Trigger ''on_batch_end'' # map Call calls" by simp
  from il l1' cb cc lg show ?thesis by blast
qed

text \<open>The theorem at work, with the callbacks 0 and 1, which return.\<close>

theorem clip_after_each_backward_witness:
  "data_pos ready_world + nat 2 \<le> loader_len ready_world
 \<and> (\<exists>t1 w1 g calls.
           inner_loop (nat 2) (new_trainer sample_config) ready_world = Returns t1 w1
         \<and> log w1 = log ready_world @ concat (map (\<lambda>b. [Fetch b, Forward b, ZeroGrad, Backward b,
                                               ClipGrad (grad_norm_clip (config (new_trainer sample_config)))])
                                     [data_pos ready_world ..< data_pos ready_world + nat 2])
         \<and> count_ev is_backward (log w1) = count_ev is_backward (log ready_world) + nat 2
         \<and> count_ev is_clip (log w1) = count_ev is_clip (log ready_world) + nat 2
         \<and> outcome_log (cycle sample_env registry_returning 2 (new_trainer sample_config) ready_world)
             = log w1 @ OptStep g # Trigger ''on_batch_end'' # map Call calls)
 \<and> outcome_log (cycle sample_env registry_returning 2 (new_trainer sample_config) ready_world)
      = [Fetch 0, Forward 0, ZeroGrad, Backward 0, ClipGrad 1,
         Fetch 1, Forward 1, ZeroGrad, Backward 1, ClipGrad 1,
         OptStep [1], Trigger ''on_batch_end'', Call 0, Call 1]"
proof -
  have h: "data_pos ready_world + nat 2 \<le> loader_len ready_world"
    by (simp add: ready_world_def new_world_def)
  have ev: "outcome_log (cycle sample_env registry_returning 2 (new_trainer sample_config) ready_world)
      = [Fetch 0, Forward 0, ZeroGrad, Backward 0, ClipGrad 1,
         Fetch 1, Forward 1, ZeroGrad, Backward 1, ClipGrad 1,
         OptStep [1], Trigger ''on_batch_end'', Call 0, Call 1]"
    by code_simp
  note t = clip_after_each_backward[OF h, of "new_trainer sample_config" sample_env
      registry_returning]
  show ?thesis
    by (intro conjI h t ev)
qed

subsection \<open>The outer loop and \<^verbatim>\<open>run\<close>\<close>

lemma fold_quiet:
  "(\<forall>c \<in> set cs. \<forall>s. iter_num (snd (cb E c s)) = iter_num s \<and> config (snd (cb E c s)) = config s)
     \<Longrightarrow> iter_num (fold (\<lambda>c s. snd (cb E c s)) cs t) = iter_num t
       \<and> config (fold (\<lambda>c s. snd (cb E c s)) cs t) = config t"
  by (induction cs arbitrary: t) simp_all

lemma cycle_returns:
  assumes data: "data_pos w + nat steps \<le> loader_len w"
    and quiet: "\<forall>c \<in> set (callbacks_get callbacks ''on_batch_end''). \<forall>s.
                  fst (cb E c s) = None \<and> iter_num (snd (cb E c s)) = iter_num s
                  \<and> config (snd (cb E c s)) = config s"
  shows "\<exists>t1 w1. cycle E callbacks steps t w = Returns t1 w1
           \<and> iter_num t1 = iter_num t + 1 \<and> config t1 = config t
           \<and> data_pos w1 = data_pos w + nat steps \<and> loader_len w1 = loader_len w
           \<and> count_ev is_opt_step (log w1) = count_ev is_opt_step (log w) + 1"
proof -
  let ?cs = "callbacks_get callbacks ''on_batch_end''"
  define inner where
    "inner = concat (map (micro_events (grad_norm_clip (config t)))
                           [data_pos w ..< data_pos w + nat steps])"
  obtain t1 w1 where il: "inner_loop (nat steps) t w = Returns t1 w1"
    and l1: "log w1 = log w @ inner"
    and d1: "data_pos w1 = data_pos w + nat steps" "loader_len w1 = loader_len w"
    and c1: "config t1 = config t" "iter_num t1 = iter_num t"
    using inner_loop_more[OF data, of t] by (simp add: inner_def)
  have nr: "\<forall>c \<in> set ?cs. \<forall>s. fst (cb E c s) = None" using quiet by simp
  have pres: "\<forall>c \<in> set ?cs. \<forall>s. iter_num (snd (cb E c s)) = iter_num s
                \<and> config (snd (cb E c s)) = config s" using quiet by simp
  let ?t2 = "fold (\<lambda>c s. snd (cb E c s)) ?cs t1"
  let ?w2 = "(optimizer_step w1)\<lparr>log := log (optimizer_step w1)
                 @ Trigger ''on_batch_end'' # map Call ?cs\<rparr>"
  have tr: "trigger_callbacks E callbacks ''on_batch_end'' t1 (optimizer_step w1)
              = Returns ?t2 ?w2"
    using call_each_returns[OF nr, of t1
        "(optimizer_step w1)\<lparr>log := log (optimizer_step w1) @ [Trigger ''on_batch_end'']\<rparr>"]
    by (simp add: trigger_callbacks_def)
  have t2: "iter_num ?t2 = iter_num t" "config ?t2 = config t"
    using fold_quiet[OF pres, of t1] c1 by simp_all
  have cnt: "count_ev is_opt_step (log ?w2) = count_ev is_opt_step (log w) + 1"
    using count_calls(5)[of ?cs] count_micro_events(5)
    by (simp add: optimizer_step_def l1 inner_def count_ev_def)
  have "cycle E callbacks steps t w =
      Returns (?t2\<lparr>iter_num := iter_num ?t2 + 1,
                   iter_dt := now E (clock ?w2) - iter_time ?t2,
                   iter_time := now E (clock ?w2)\<rparr>)
        (?w2\<lparr>clock := Suc (clock ?w2)\<rparr>)"
    by (simp add: cycle_def il tr Let_def)
  then show ?thesis
    using t2 d1 cnt by (simp add: optimizer_step_def)
qed

lemma cycle_exhausted:
  assumes "data_pos w \<le> loader_len w" and "loader_len w < data_pos w + nat steps"
  shows "\<exists>t1 w1. cycle E callbacks steps t w = Raises (NameError ''train_loader'') t1 w1
           \<and> iter_num t1 = iter_num t
           \<and> count_ev is_opt_step (log w1) = count_ev is_opt_step (log w)"
proof -
  from inner_loop_exhausted[OF assms, of t] obtain t1 w1 where
    "inner_loop (nat steps) t w = Raises (NameError ''train_loader'') t1 w1"
    "iter_num t1 = iter_num t"
    "count_ev is_opt_step (log w1) = count_ev is_opt_step (log w)" by blast
  then show ?thesis by (simp add: cycle_def)
qed

lemma run_loop_returns:
  assumes quiet: "\<forall>c \<in> set (callbacks_get callbacks ''on_batch_end''). \<forall>s.
                  fst (cb E c s) = None \<and> iter_num (snd (cb E c s)) = iter_num s
                  \<and> config (snd (cb E c s)) = config s"
  shows "max_iters (config t) = Some m \<Longrightarrow> iter_num t + int (Suc n) = m \<Longrightarrow>
         data_pos w + Suc n * nat steps \<le> loader_len w \<Longrightarrow> Suc n \<le> fuel \<Longrightarrow>
         \<exists>t1 w1. run_loop fuel E callbacks steps t w = Some (Returns t1 w1)
           \<and> iter_num t1 = m \<and> config t1 = config t
           \<and> count_ev is_opt_step (log w1) = count_ev is_opt_step (log w) + Suc n"
proof (induction n arbitrary: t w fuel)
  case 0
  then obtain f where fuel: "fuel = Suc f" by (cases fuel) auto
  have "data_pos w + nat steps \<le> loader_len w" using 0 by simp
  from cycle_returns[OF this quiet, of t] obtain t1 w1 where
    c: "cycle E callbacks steps t w = Returns t1 w1"
    "iter_num t1 = iter_num t + 1" "config t1 = config t"
    "count_ev is_opt_step (log w1) = count_ev is_opt_step (log w) + 1" by blast
  with 0 fuel show ?case by simp
next
  case (Suc n)
  then obtain f where fuel: "fuel = Suc f" by (cases fuel) auto
  have "data_pos w + nat steps \<le> loader_len w" using Suc.prems by simp
  from cycle_returns[OF this quiet, of t] obtain t1 w1 where
    c: "cycle E callbacks steps t w = Returns t1 w1"
    "iter_num t1 = iter_num t + 1" "config t1 = config t"
    "data_pos w1 = data_pos w + nat steps" "loader_len w1 = loader_len w"
    "count_ev is_opt_step (log w1) = count_ev is_opt_step (log w) + 1" by blast
  have a: "max_iters (config t1) = Some m" using c Suc.prems by simp
  have b: "iter_num t1 + int (Suc n) = m" using c Suc.prems by simp
  have d: "data_pos w1 + Suc n * nat steps \<le> loader_len w1" using c Suc.prems by simp
  have e: "Suc n \<le> f" using Suc.prems fuel by simp
  from Suc.IH[OF a b d e] obtain t2 w2 where
    r: "run_loop f E callbacks steps t1 w1 = Some (Returns t2 w2)"
    "iter_num t2 = m" "config t2 = config t1"
    "count_ev is_opt_step (log w2) = count_ev is_opt_step (log w1) + Suc n" by blast
  have "\<not> iter_num t1 \<ge> m" using b by simp
  with c a r fuel show ?case by simp
qed

lemma run_loop_keeps_running:
  assumes quiet: "\<forall>c \<in> set (callbacks_get callbacks ''on_batch_end''). \<forall>s.
                  fst (cb E c s) = None \<and> iter_num (snd (cb E c s)) = iter_num s
                  \<and> config (snd (cb E c s)) = config s"
  shows "max_iters (config t) = None \<Longrightarrow> data_pos w + fuel * nat steps \<le> loader_len w \<Longrightarrow>
         run_loop fuel E callbacks steps t w = None"
proof (induction fuel arbitrary: t w)
  case 0
  then show ?case by simp
next
  case (Suc fuel)
  have "data_pos w + nat steps \<le> loader_len w" using Suc.prems by simp
  from cycle_returns[OF this quiet, of t] obtain t1 w1 where
    c: "cycle E callbacks steps t w = Returns t1 w1" "config t1 = config t"
    "data_pos w1 = data_pos w + nat steps" "loader_len w1 = loader_len w" by blast
  have "run_loop fuel E callbacks steps t1 w1 = None"
    using c Suc.prems by (intro Suc.IH) simp_all
  with c Suc.prems show ?case by simp
qed

lemma run_loop_exhausts:
  assumes quiet: "\<forall>c \<in> set (callbacks_get callbacks ''on_batch_end''). \<forall>s.
                  fst (cb E c s) = None \<and> iter_num (snd (cb E c s)) = iter_num s
                  \<and> config (snd (cb E c s)) = config s"
    and steps: "1 \<le> steps"
  shows "max_iters (config t) = None \<Longrightarrow> data_pos w \<le> loader_len w \<Longrightarrow>
         (loader_len w - data_pos w) div nat steps < fuel \<Longrightarrow>
         \<exists>t1 w1. run_loop fuel E callbacks steps t w = Some (Raises (NameError ''train_loader'') t1 w1)
           \<and> iter_num t1 = iter_num t + int ((loader_len w - data_pos w) div nat steps)
           \<and> count_ev is_opt_step (log w1)
               = count_ev is_opt_step (log w) + (loader_len w - data_pos w) div nat steps"
proof (induction fuel arbitrary: t w)
  case 0
  then show ?case by simp
next
  case (Suc fuel)
  have k: "0 < nat steps" using steps by simp
  show ?case
  proof (cases "data_pos w + nat steps \<le> loader_len w")
    case True
    from cycle_returns[OF True quiet, of t] obtain t1 w1 where
      c: "cycle E callbacks steps t w = Returns t1 w1"
      "iter_num t1 = iter_num t + 1" "config t1 = config t"
      "data_pos w1 = data_pos w + nat steps" "loader_len w1 = loader_len w"
      "count_ev is_opt_step (log w1) = count_ev is_opt_step (log w) + 1" by blast
    have dv: "(loader_len w - data_pos w) div nat steps
                = Suc ((loader_len w1 - data_pos w1) div nat steps)"
    proof -
      have "loader_len w - data_pos w = (loader_len w1 - data_pos w1) + nat steps"
        using True c by simp
      then show ?thesis using k by simp
    qed
    have a: "max_iters (config t1) = None" using c Suc.prems by simp
    have b: "data_pos w1 \<le> loader_len w1" using c True by simp
    have d: "(loader_len w1 - data_pos w1) div nat steps < fuel" using Suc.prems dv by simp
    from Suc.IH[OF a b d] obtain t2 w2 where
      "run_loop fuel E callbacks steps t1 w1 = Some (Raises (NameError ''train_loader'') t2 w2)"
      "iter_num t2 = iter_num t1 + int ((loader_len w1 - data_pos w1) div nat steps)"
      "count_ev is_opt_step (log w2)
         = count_ev is_opt_step (log w1) + (loader_len w1 - data_pos w1) div nat steps" by blast
    with c a dv show ?thesis by simp
  next
    case False
    then have lt: "loader_len w < data_pos w + nat steps" by simp
    from cycle_exhausted[OF Suc.prems(2) lt, of E callbacks t] obtain t1 w1 where
      c: "cycle E callbacks steps t w = Raises (NameError ''train_loader'') t1 w1"
      "iter_num t1 = iter_num t"
      "count_ev is_opt_step (log w1) = count_ev is_opt_step (log w)" by blast
    have "loader_len w - data_pos w < nat steps" using lt Suc.prems(2) by simp
    then have "(loader_len w - data_pos w) div nat steps = 0" by (rule div_less)
    with c show ?thesis by simp
  qed
qed

lemma cycle_optimizer_sees_last_batch_only:
  assumes "data_pos w + nat steps \<le> loader_len w" and "1 \<le> steps"
  shows "\<exists>calls. outcome_log (cycle E callbacks steps t w)
             = log w
               @ concat (map (micro_events (grad_norm_clip (config t)))
                           [data_pos w ..< data_pos w + nat steps])
               @ OptStep [data_pos w + nat steps - 1] # Trigger ''on_batch_end'' # map Call calls
         \<and> count_ev is_zero_grad (concat (map (micro_events (grad_norm_clip (config t)))
                           [data_pos w ..< data_pos w + nat steps])) = nat steps"
proof -
  have n: "nat steps \<noteq> 0" using assms(2) by simp
  from cycle_log[OF assms(1), of callbacks E t] n show ?thesis
    by (auto simp: count_micro_events)
qed

lemma run_returns_after_max_iters:
  assumes quiet: "\<forall>c \<in> set (callbacks_get callbacks ''on_batch_end''). \<forall>s.
                  fst (cb E c s) = None \<and> iter_num (snd (cb E c s)) = iter_num s
                  \<and> config (snd (cb E c s)) = config s"
    and bs: "0 < batch_size (config t)" and nw: "0 \<le> num_workers (config t)"
    and mi: "max_iters (config t) = Some m" and m: "1 \<le> m"
    and data: "nat m * nat (cross_batch_num (config t)) \<le> num_batches E t"
    and fuel: "nat m \<le> fuel"
  shows "\<exists>t1 w1. run fuel E callbacks t w = Some (Returns t1 w1)
           \<and> iter_num t1 = m
           \<and> count_ev is_opt_step (log w1) = count_ev is_opt_step (log w) + nat m"
proof -
  let ?wa = "w\<lparr>loader_len := num_batches E t, data_pos := 0\<rparr>"
  let ?tb = "t\<lparr>iter_num := 0, iter_time := now E (clock ?wa)\<rparr>"
  let ?wb = "?wa\<lparr>clock := Suc (clock ?wa)\<rparr>"
  let ?steps = "cross_batch_num (config ?tb)"
  obtain n where n: "nat m = Suc n" using m by (cases "nat m") auto
  have a: "max_iters (config ?tb) = Some m" using mi by simp
  have b: "iter_num ?tb + int (Suc n) = m" using n m by simp
  have d: "data_pos ?wb + Suc n * nat ?steps \<le> loader_len ?wb" using data n by simp
  have e: "Suc n \<le> fuel" using fuel n by simp
  from run_loop_returns[OF quiet a b d e] obtain t1 w1 where
    r: "run_loop fuel E callbacks ?steps ?tb ?wb = Some (Returns t1 w1)"
    "iter_num t1 = m"
    "count_ev is_opt_step (log w1) = count_ev is_opt_step (log ?wb) + Suc n" by blast
  have "run fuel E callbacks t w =
      Some (Returns t1 (if use_fsdp t1 then w1\<lparr>log := log w1 @ [DestroyGroup]\<rparr> else w1))"
    using bs nw r(1) by (simp add: run_def Let_def)
  moreover have "count_ev is_opt_step
       (log (if use_fsdp t1 then w1\<lparr>log := log w1 @ [DestroyGroup]\<rparr> else w1))
        = count_ev is_opt_step (log w) + nat m"
    using r(3) n by (simp add: count_ev_def)
  ultimately show ?thesis using r(2) by blast
qed

lemma num_batches_default:
  "num_batches sample_env (new_trainer get_default_config) = 156250000"
  by (simp add: num_batches_def new_trainer_def get_default_config_def ceil_div_def)

lemma no_callbacks_quiet:
  "\<forall>c \<in> set (callbacks_get no_callbacks ''on_batch_end''). \<forall>s.
      fst (cb E c s) = None \<and> iter_num (snd (cb E c s)) = iter_num s
      \<and> config (snd (cb E c s)) = config s"
  by (simp add: callbacks_get_def no_callbacks_def)

text \<open>
  Claim C5. With the default configuration but \<^verbatim>\<open>max_iters = 5\<close>, no callbacks and
  distributed training off, \<^verbatim>\<open>run\<close> returns after five passes of its outer loop with
  \<open>iter_num = 5\<close> and five optimizer steps: the first sentence of the claim holds. The
  second does not hold of the code. With \<^verbatim>\<open>max_iters = None\<close> the loop is still running after
  156250000 passes, which is every batch of the loader (\<open>10\<^sup>1\<^sup>0\<close> samples in batches of 64);
  in the next pass \<^verbatim>\<open>next(data_iter)\<close> raises \<^verbatim>\<open>StopIteration\<close>, the handler reads the name
  \<^verbatim>\<open>train_loader\<close>, which is bound nowhere (the loader is \<^verbatim>\<open>self.train_loader\<close>), and \<^verbatim>\<open>run\<close>
  ends with a \<^verbatim>\<open>NameError\<close>, after 156250000 iterations and as many optimizer steps. The
  first argument of \<open>run\<close> bounds the passes of the outer loop that are followed; \<open>None\<close>
  says that the loop is still running after that many.
\<close>

theorem run_max_iters_and_loader_exhaustion:
  "(\<exists>t w. run 5 sample_env no_callbacks
             (new_trainer (get_default_config\<lparr>max_iters := Some 5\<rparr>)) new_world
             = Some (Returns t w)
         \<and> iter_num t = 5
         \<and> count_ev is_opt_step (log w) = 5)
 \<and> run 156250000 sample_env no_callbacks (new_trainer get_default_config) new_world = None
 \<and> (\<exists>t w. run 156250001 sample_env no_callbacks (new_trainer get_default_config) new_world
             = Some (Raises (NameError ''train_loader'') t w)
         \<and> iter_num t = 156250000
         \<and> count_ev is_opt_step (log w) = 156250000)"
proof -
  let ?t5 = "new_trainer (get_default_config\<lparr>max_iters := Some 5\<rparr>)"
  have five: "\<exists>t w. run 5 sample_env no_callbacks ?t5 new_world = Some (Returns t w)
         \<and> iter_num t = 5 \<and> count_ev is_opt_step (log w) = 5"
  proof -
    have bs: "0 < batch_size (config ?t5)" and nw: "0 \<le> num_workers (config ?t5)"
      and mi: "max_iters (config ?t5) = Some 5"
      by (simp_all add: new_trainer_def get_default_config_def)
    have data: "nat 5 * nat (cross_batch_num (config ?t5)) \<le> num_batches sample_env ?t5"
      by (simp add: num_batches_def new_trainer_def get_default_config_def ceil_div_def)
    have m: "(1::int) \<le> 5" and fuel: "nat 5 \<le> (5::nat)" by simp_all
    have lg: "count_ev is_opt_step (log new_world) = 0"
      by (simp add: new_world_def count_ev_def)
    from run_returns_after_max_iters[OF no_callbacks_quiet bs nw mi m data fuel, of new_world]
    show ?thesis by (simp add: lg)
  qed
  let ?ta = "new_trainer get_default_config"
  let ?wa = "new_world\<lparr>loader_len := num_batches sample_env ?ta, data_pos := 0\<rparr>"
  let ?tb = "?ta\<lparr>iter_num := 0, iter_time := now sample_env (clock ?wa)\<rparr>"
  let ?wb = "?wa\<lparr>clock := Suc (clock ?wa)\<rparr>"
  have cfg: "batch_size (config ?ta) = 64" "num_workers (config ?ta) = 4"
    "cross_batch_num (config ?tb) = 1" "max_iters (config ?tb) = None"
    by (simp_all add: new_trainer_def get_default_config_def)
  have unf: "\<And>fuel. run fuel sample_env no_callbacks ?ta new_world =
      (case run_loop fuel sample_env no_callbacks 1 ?tb ?wb of
             None \<Rightarrow> None
           | Some (Raises e t1 w1) \<Rightarrow> Some (Raises e t1 w1)
           | Some (Returns t1 w1) \<Rightarrow>
               Some (Returns t1
                 (if use_fsdp t1 then w1\<lparr>log := log w1 @ [DestroyGroup]\<rparr> else w1)))"
    using cfg by (simp add: run_def Let_def)
  have len: "loader_len ?wb = 156250000 \<and> data_pos ?wb = 0"
    by (simp_all add: num_batches_default)
  have lg: "log ?wb = []" by (simp add: new_world_def)
  have "run_loop 156250000 sample_env no_callbacks 1 ?tb ?wb = None"
    by (rule run_loop_keeps_running[OF no_callbacks_quiet cfg(4)]) (simp add: num_batches_default)
  then have first: "run 156250000 sample_env no_callbacks ?ta new_world = None"
    by (simp add: unf)
  have one: "(1::int) \<le> 1" by simp
  have "\<exists>t1 w1. run_loop 156250001 sample_env no_callbacks 1 ?tb ?wb
            = Some (Raises (NameError ''train_loader'') t1 w1)
         \<and> iter_num t1 = iter_num ?tb + int ((loader_len ?wb - data_pos ?wb) div nat 1)
         \<and> count_ev is_opt_step (log w1)
               = count_ev is_opt_step (log ?wb) + (loader_len ?wb - data_pos ?wb) div nat 1"
    by (rule run_loop_exhausts[OF no_callbacks_quiet one cfg(4)]) (simp_all add: num_batches_default)
  then obtain t1 w1 where
    r: "run_loop 156250001 sample_env no_callbacks 1 ?tb ?wb
            = Some (Raises (NameError ''train_loader'') t1 w1)"
    and i: "iter_num t1 = iter_num ?tb + int ((loader_len ?wb - data_pos ?wb) div nat 1)"
    and c: "count_ev is_opt_step (log w1)
               = count_ev is_opt_step (log ?wb) + (loader_len ?wb - data_pos ?wb) div nat 1"
    by blast
  have i': "iter_num t1 = 156250000" using i by (simp add: num_batches_default)
  have c': "count_ev is_opt_step (log w1) = 156250000"
    using c by (simp add: num_batches_default new_world_def count_ev_def)
  have "run 156250001 sample_env no_callbacks ?ta new_world
          = Some (Raises (NameError ''train_loader'') t1 w1)"
    using r by (simp add: unf)
  with i' c' first five show ?thesis by blast
qed

text \<open>
  Claim C1. With \<^verbatim>\<open>cross_batch_num = 2\<close> and \<^verbatim>\<open>max_iters = 1\<close> (the default configuration
  otherwise, no callbacks) \<^verbatim>\<open>run\<close> makes these calls, in this order: for each of the two
  micro-batches a fetch, a forward pass, \<^verbatim>\<open>zero_grad\<close>, a backward pass and a clipping, then
  one optimizer step and one dispatch. The gradient buffers are emptied twice in the
  cycle, once per micro-batch and each time just before the backward pass, so the
  optimizer step finds in them the gradient of the last micro-batch alone (batch 1) and
  not the sum over batches 0 and 1: the code does not do what the claim says.
\<close>

theorem run_zeroes_gradients_every_micro_batch:
  "run 1 sample_env no_callbacks (new_trainer sample_config) new_world =
   Some (Returns
     ((new_trainer sample_config)\<lparr>iter_num := 1, iter_time := 1, iter_dt := 1, loss := Some 1\<rparr>)
     (new_world\<lparr>grad := Some [1], loader_len := 156250000, data_pos := 2, clock := 2,
       log := [Fetch 0, Forward 0, ZeroGrad, Backward 0, ClipGrad 1,
               Fetch 1, Forward 1, ZeroGrad, Backward 1, ClipGrad 1,
               OptStep [1], Trigger ''on_batch_end'']\<rparr>))
 \<and> count_ev is_zero_grad
      [Fetch 0, Forward 0, ZeroGrad, Backward 0, ClipGrad 1,
       Fetch 1, Forward 1, ZeroGrad, Backward 1, ClipGrad 1,
       OptStep [1], Trigger ''on_batch_end''] = 2
 \<and> count_ev is_opt_step
      [Fetch 0, Forward 0, ZeroGrad, Backward 0, ClipGrad 1,
       Fetch 1, Forward 1, ZeroGrad, Backward 1, ClipGrad 1,
       OptStep [1], Trigger ''on_batch_end''] = 1"
proof (intro conjI)
  show "run 1 sample_env no_callbacks (new_trainer sample_config) new_world =
   Some (Returns
     ((new_trainer sample_config)\<lparr>iter_num := 1, iter_time := 1, iter_dt := 1, loss := Some 1\<rparr>)
     (new_world\<lparr>grad := Some [1], loader_len := 156250000, data_pos := 2, clock := 2,
       log := [Fetch 0, Forward 0, ZeroGrad, Backward 0, ClipGrad 1,
               Fetch 1, Forward 1, ZeroGrad, Backward 1, ClipGrad 1,
               OptStep [1], Trigger ''on_batch_end'']\<rparr>))"
    by (simp add: run_def num_batches_def ceil_div_def new_trainer_def sample_config_def
      get_default_config_def new_world_def sample_env_def no_callbacks_def numeral_2_eq_2
      cycle_def micro_batch_def fetch_batch_def next_batch_def zero_grad_def backward_def
      clip_grad_norm_def optimizer_step_def trigger_callbacks_def callbacks_get_def Let_def)
qed (simp_all add: count_ev_def)

section \<open>Properties of the constructor\<close>

lemma resolve_confit: "resolve init_locals ''confit'' = Inl (NameError ''confit'')"
  by (simp add: resolve_def init_locals_def module_globals_def builtins_used_def)

lemma init_eq:
  "init H cfg model dataset =
     Inl (NameError ''confit'',
          [(''config'', VConfig cfg), (''model'', VModel model), (''optimizer'', VNone),
           (''train_dataset'', VDataset dataset), (''callbacks'', VCallbacks Map.empty)])"
  by (simp add: init_def resolve_confit setattr_def)

lemma read_local_rank_fails: "read_local_rank H = Inl (AttributeError ''env'')"
  by (simp add: read_local_rank_def os_getattr_def)

lemma init_device_fsdp_fails:
  "map_of self ''use_fsdp'' = Some (VBool True) \<Longrightarrow>
   init_device H cfg self = Inl (AttributeError ''env'', self)"
  by (simp add: init_device_def get_bool_def read_local_rank_fails)

lemma init_device_single:
  "init_device sample_host get_default_config
     [(''config'', VConfig get_default_config), (''model'', VModel (0::nat)), (''optimizer'', VNone),
      (''train_dataset'', VDataset train_dataset), (''callbacks'', VCallbacks Map.empty),
      (''use_fsdp'', VBool False)]
   = Inr [(''config'', VConfig get_default_config), (''model'', VModel 0), (''optimizer'', VNone),
      (''train_dataset'', VDataset train_dataset), (''callbacks'', VCallbacks Map.empty),
      (''use_fsdp'', VBool False), (''device'', VStr ''cuda''), (''iter_num'', VInt 0),
      (''iter_time'', VFloat 0), (''iter_dt'', VFloat 0)]"
  by (simp add: init_device_def get_bool_def get_model_def setattr_def sample_host_def
      get_default_config_def Let_def)

text \<open>
  Claim C2 (amended). For every configuration, model and dataset argument (and every
  process), constructing a trainer raises \<^verbatim>\<open>NameError\<close> for the name \<^verbatim>\<open>confit\<close>, after the
  attributes \<^verbatim>\<open>config\<close>, \<^verbatim>\<open>model\<close>, \<^verbatim>\<open>optimizer\<close>, \<^verbatim>\<open>train_dataset\<close> and \<^verbatim>\<open>callbacks\<close> have been
  assigned, in this order, and before \<^verbatim>\<open>use_fsdp\<close> or any later attribute is; so no
  construction returns an instance.
\<close>

theorem init_raises_name_error_after_five_assignments:
  "init H cfg model dataset =
     Inl (NameError ''confit'',
          [(''config'', VConfig cfg), (''model'', VModel model), (''optimizer'', VNone),
           (''train_dataset'', VDataset dataset), (''callbacks'', VCallbacks Map.empty)])
 \<and> (\<nexists>self. init H cfg model dataset = Inr self)"
  by (simp add: init_eq)

text \<open>
  Claim C2 (as stated) fails on the default configuration: when the \<^verbatim>\<open>NameError\<close> is
  raised the object has five attributes, among them \<^verbatim>\<open>config\<close> and \<^verbatim>\<open>model\<close> with the
  values of the arguments, so field assignments have completed before the error.
\<close>

theorem init_assigns_fields_before_raising:
  "\<exists>self. init sample_host get_default_config (0::nat) train_dataset
             = Inl (NameError ''confit'', self)
        \<and> map fst self = [''config'', ''model'', ''optimizer'', ''train_dataset'', ''callbacks'']
        \<and> map_of self ''config'' = Some (VConfig get_default_config)
        \<and> map_of self ''model'' = Some (VModel 0)
        \<and> self \<noteq> []"
  by (simp add: init_eq)

text \<open>
  Claim C10. With distributed training enabled in the configuration and no variable
  \<^verbatim>\<open>LOCAL_RANK\<close> in the environment, \<^verbatim>\<open>__init__\<close> does not default the rank to 0: it ends
  with the \<^verbatim>\<open>NameError\<close> for \<^verbatim>\<open>confit\<close> before the environment is read, with no attribute
  \<^verbatim>\<open>local_rank\<close> or \<^verbatim>\<open>device\<close> assigned. And the rest of \<^verbatim>\<open>__init__\<close>, run on the object
  with \<^verbatim>\<open>use_fsdp\<close> set to \<^verbatim>\<open>True\<close>, ends with an \<^verbatim>\<open>AttributeError\<close>, since it reads
  \<^verbatim>\<open>os.env\<close> and the module has no such attribute; again no rank or device is assigned.
\<close>

theorem init_never_reads_local_rank:
  "init (H\<lparr>environ := (environ H)(''LOCAL_RANK'' := None)\<rparr>) (cfg\<lparr>cfg_use_fsdp := True\<rparr>)
        model dataset
     = Inl (NameError ''confit'',
          [(''config'', VConfig (cfg\<lparr>cfg_use_fsdp := True\<rparr>)), (''model'', VModel model),
           (''optimizer'', VNone), (''train_dataset'', VDataset dataset),
           (''callbacks'', VCallbacks Map.empty)])
 \<and> init_device (H\<lparr>environ := (environ H)(''LOCAL_RANK'' := None)\<rparr>)
        (cfg\<lparr>cfg_use_fsdp := True\<rparr>)
        (setattr [(''config'', VConfig (cfg\<lparr>cfg_use_fsdp := True\<rparr>)), (''model'', VModel model),
           (''optimizer'', VNone), (''train_dataset'', VDataset dataset),
           (''callbacks'', VCallbacks Map.empty)] ''use_fsdp'' (VBool True))
     = Inl (AttributeError ''env'',
          [(''config'', VConfig (cfg\<lparr>cfg_use_fsdp := True\<rparr>)), (''model'', VModel model),
           (''optimizer'', VNone), (''train_dataset'', VDataset dataset),
           (''callbacks'', VCallbacks Map.empty), (''use_fsdp'', VBool True)])"
proof -
  let ?self = "[(''config'', VConfig (cfg\<lparr>cfg_use_fsdp := True\<rparr>)), (''model'', VModel model),
           (''optimizer'', VNone), (''train_dataset'', VDataset dataset),
           (''callbacks'', VCallbacks Map.empty), (''use_fsdp'', VBool True)]"
  have s: "setattr [(''config'', VConfig (cfg\<lparr>cfg_use_fsdp := True\<rparr>)), (''model'', VModel model),
           (''optimizer'', VNone), (''train_dataset'', VDataset dataset),
           (''callbacks'', VCallbacks Map.empty)] ''use_fsdp'' (VBool True) = ?self"
    by (simp add: setattr_def)
  have m: "map_of ?self ''use_fsdp'' = Some (VBool True)" by simp
  show ?thesis
    unfolding s init_device_fsdp_fails[OF m] by (simp add: init_eq)
qed

end
